theory Spec2Isabelle
  imports Main "HOL-Library.Sublist"
begin

section \<open>Strings and the Python runtime\<close>

text \<open>
  A Python \<open>str\<close> is a sequence of Unicode code points, so a string of the program is a
  list of code points (natural numbers), and its length counts code points as
  \<open>len\<close> and slicing do. \<open>str\<close> turns an ASCII literal into such a string.
\<close>

type_synonym pystr = "nat list"

definition str :: "string \<Rightarrow> pystr" where
  "str s = map of_char s"

text \<open>
  The program reaches the Unicode character database and the URL parser only through
  the interpreter: \<open>\w\<close> and \<open>\s\<close> in \<open>re\<close>, \<open>str.lower\<close>, \<open>urlparse\<close> and \<open>unquote\<close>.
  They are not part of the repository, so the model takes them as a parameter.
  \<^item> \<open>isalnum c\<close>: \<open>str.isalnum\<close> of a code point; \<open>\w\<close> is \<open>isalnum\<close> or the underscore.
  \<^item> \<open>isspace c\<close>: what \<open>\s\<close> matches in a \<open>str\<close> pattern.
  \<^item> \<open>lower s\<close>: \<open>s.lower()\<close>, which works on the whole string (one code point may
    lower to several, and the Greek sigma depends on its position).
  \<^item> \<open>url_path u\<close>: \<open>unquote(urlparse(u).path)\<close>, lines 47 and 48 of the source;
    \<open>urlparse\<close> raises \<open>ValueError\<close> on some strings.
\<close>

text \<open>
  A value read from the manifest is a string or \<open>None\<close>: \<open>csv.DictReader\<close> fills the
  cells a short line lacks with \<open>None\<close>. The exceptions below are the ones that leave
  \<open>download_file\<close> and \<open>main\<close> uncaught.
\<close>

type_synonym pyval = "pystr option"

datatype pyerror = KeyError | TypeError | AttributeError | ValueError

record pylib =
  isalnum :: "nat \<Rightarrow> bool"
  isspace :: "nat \<Rightarrow> bool"
  lower :: "pystr \<Rightarrow> pystr"
  url_path :: "pyval \<Rightarrow> pyerror + pystr"

text \<open>The tables on the ASCII range, where they are small enough to write out.\<close>

definition ascii_isalnum :: "nat \<Rightarrow> bool" where
  "ascii_isalnum c \<longleftrightarrow> (48 \<le> c \<and> c \<le> 57) \<or> (65 \<le> c \<and> c \<le> 90) \<or> (97 \<le> c \<and> c \<le> 122)"

definition ascii_isspace :: "nat \<Rightarrow> bool" where
  "ascii_isspace c \<longleftrightarrow> (9 \<le> c \<and> c \<le> 13) \<or> (28 \<le> c \<and> c \<le> 32)"

definition ascii_lower :: "nat \<Rightarrow> nat" where
  "ascii_lower c = (if 65 \<le> c \<and> c \<le> 90 then c + 32 else c)"

definition is_ascii :: "pystr \<Rightarrow> bool" where
  "is_ascii s \<longleftrightarrow> list_all (\<lambda>c. c < 128) s"

text \<open>A runtime agrees with Unicode on ASCII when its tables are the ones above there.\<close>

definition ascii_faithful :: "'a pylib_scheme \<Rightarrow> bool" where
  "ascii_faithful lib \<longleftrightarrow>
     (\<forall>c < 128. isalnum lib c = ascii_isalnum c \<and> isspace lib c = ascii_isspace c) \<and>
     (\<forall>s. is_ascii s \<longrightarrow> lower lib s = map ascii_lower s)"

section \<open>Filename sanitizer\<close>

text \<open>
  \<^verbatim>\<open>
  def sanitize_filename(name: str) -> str:
      name = re.sub(r'[<>:"/\\|?*]', '', name)
      name = re.sub(r'\s+', '_', name)
      name = re.sub(r'[^\w\-_.]', '', name)
      return name.lower()[:100]
  \<close>
\<close>

text \<open>
  The class of the first substitution, by code point: \<open><\<close> 60, \<open>>\<close> 62, \<open>:\<close> 58,
  the double quote 34, \<open>/\<close> 47, the backslash 92, \<open>|\<close> 124, \<open>?\<close> 63, \<open>*\<close> 42.
  In the third class, \<open>_\<close> is 95, \<open>-\<close> is 45 and \<open>.\<close> is 46.
\<close>

definition problematic :: "nat \<Rightarrow> bool" where
  "problematic c \<longleftrightarrow> c \<in> {60, 62, 58, 34, 47, 92, 124, 63, 42}"

definition is_word :: "'a pylib_scheme \<Rightarrow> nat \<Rightarrow> bool" where
  "is_word lib c \<longleftrightarrow> isalnum lib c \<or> c = 95"

definition keep_char :: "'a pylib_scheme \<Rightarrow> nat \<Rightarrow> bool" where
  "keep_char lib c \<longleftrightarrow> is_word lib c \<or> c = 45 \<or> c = 95 \<or> c = 46"

text \<open>\<open>re.sub(r'\s+', '_', name)\<close>: every maximal run of whitespace becomes one underscore.\<close>

function collapse_ws :: "(nat \<Rightarrow> bool) \<Rightarrow> pystr \<Rightarrow> pystr" where
  "collapse_ws sp [] = []"
| "collapse_ws sp (c # cs) =
     (if sp c then 95 # collapse_ws sp (dropWhile sp cs) else c # collapse_ws sp cs)"
  by pat_completeness auto
termination
  by (relation "measure (\<lambda>(sp, cs). length cs)")
     (auto simp: length_dropWhile_le less_Suc_eq_le)

definition sanitize_filename :: "'a pylib_scheme \<Rightarrow> pystr \<Rightarrow> pystr" where
  "sanitize_filename lib name =
     (let name1 = filter (\<lambda>c. \<not> problematic c) name;
          name2 = collapse_ws (isspace lib) name1;
          name3 = filter (keep_char lib) name2
      in take 100 (lower lib name3))"

section \<open>Extension resolver\<close>

text \<open>
  \<^verbatim>\<open>
  def get_extension_from_url(url: str, file_type: str) -> str:
      parsed = urlparse(url)
      path = unquote(parsed.path)
      if path.endswith('.csv'): return '.csv'
      elif path.endswith('.json'): return '.json'
      elif path.endswith('.zip'): return '.zip'
      elif path.endswith('.xlsx'): return '.xlsx'
      elif path.endswith('.xml'): return '.xml'
      file_type_lower = file_type.lower()
      if 'csv' in file_type_lower: return '.csv'
      elif 'json' in file_type_lower: return '.json'
      elif 'zip' in file_type_lower: return '.zip'
      elif 'api' in file_type_lower: return '.json'
      return '.json'
  \<close>
  \<open>path.endswith(x)\<close> is \<open>suffix x path\<close> and \<open>x in s\<close> is \<open>sublist x s\<close>. A declared
  type that is \<open>None\<close> has no \<open>lower\<close>: the call raises \<open>AttributeError\<close>, when it is reached.
\<close>

definition get_extension_from_url :: "'a pylib_scheme \<Rightarrow> pyval \<Rightarrow> pyval \<Rightarrow> pyerror + pystr" where
  "get_extension_from_url lib url file_type =
     (case url_path lib url of
        Inl e \<Rightarrow> Inl e
      | Inr path \<Rightarrow>
          if suffix (str ''.csv'') path then Inr (str ''.csv'')
          else if suffix (str ''.json'') path then Inr (str ''.json'')
          else if suffix (str ''.zip'') path then Inr (str ''.zip'')
          else if suffix (str ''.xlsx'') path then Inr (str ''.xlsx'')
          else if suffix (str ''.xml'') path then Inr (str ''.xml'')
          else
            (case file_type of
               None \<Rightarrow> Inl AttributeError
             | Some ft \<Rightarrow>
                 (let file_type_lower = lower lib ft in
                  if sublist (str ''csv'') file_type_lower then Inr (str ''.csv'')
                  else if sublist (str ''json'') file_type_lower then Inr (str ''.json'')
                  else if sublist (str ''zip'') file_type_lower then Inr (str ''.zip'')
                  else if sublist (str ''api'') file_type_lower then Inr (str ''.json'')
                  else Inr (str ''.json''))))"

text \<open>
  The response of \<open>requests.get\<close>, as far as the program reads it: the status line, the
  two headers (\<open>None\<close> when the header is absent), and the body as \<open>iter_content\<close>
  delivers it: the chunks, and the exception that ends the stream early, if any.
  An exception inside the \<open>try\<close> is classed by the \<open>except\<close> clause that catches it, in
  the order of the source: \<open>Timeout\<close>; \<open>HTTPError\<close> with the status code and the reason of
  its response; \<open>RequestException\<close> for any other exception of \<open>requests\<close>, with its
  text; \<open>OtherException\<close> for any other \<open>Exception\<close>, with its text.
\<close>

datatype exn =
    Timeout
  | HTTPError nat pystr
  | RequestException pystr
  | OtherException pystr

record response =
  status_code :: nat
  reason :: pystr
  content_type :: "pystr option"
  content_disposition :: "pystr option"
  chunks :: "nat list list"
  stream_error :: "exn option"

text \<open>
  \<open>re.search(r'filename[^;=\n]*=([\'"]?)([^\'"\n]*)\1', content_disp)\<close>, group 2 of the
  leftmost match. At a position the pattern matches when \<open>filename\<close> stands there and the
  run of characters other than \<open>;\<close> (59), \<open>=\<close> (61) and newline (10) after it ends at
  an \<open>=\<close>. Then, if a quote (39 or 34) follows and the run of characters other than
  quotes and newline after it ends at the same quote, group 2 is that run; if it ends
  otherwise, the optional quote matches empty and group 2 is empty, since it would
  start at the quote. With no quote after the \<open>=\<close>, group 2 is the run from there.
\<close>

definition param_char :: "nat \<Rightarrow> bool" where
  "param_char c \<longleftrightarrow> c \<noteq> 59 \<and> c \<noteq> 61 \<and> c \<noteq> 10"

definition value_char :: "nat \<Rightarrow> bool" where
  "value_char c \<longleftrightarrow> c \<noteq> 39 \<and> c \<noteq> 34 \<and> c \<noteq> 10"

definition match_value :: "pystr \<Rightarrow> pystr" where
  "match_value s =
     (case s of
        [] \<Rightarrow> []
      | q # r \<Rightarrow>
          if q = 39 \<or> q = 34 then
            (case dropWhile value_char r of
               [] \<Rightarrow> []
             | q' # _ \<Rightarrow> if q' = q then takeWhile value_char r else [])
          else takeWhile value_char s)"

definition match_here :: "pystr \<Rightarrow> pystr option" where
  "match_here s =
     (if prefix (str ''filename'') s then
        (case dropWhile param_char (drop 8 s) of
           [] \<Rightarrow> None
         | c # r \<Rightarrow> if c = 61 then Some (match_value r) else None)
      else None)"

fun search_filename :: "pystr \<Rightarrow> pystr option" where
  "search_filename [] = match_here []"
| "search_filename (c # cs) =
     (case match_here (c # cs) of
        Some g \<Rightarrow> Some g
      | None \<Rightarrow> search_filename cs)"

text \<open>\<open>filename.split('.')[-1]\<close>: what follows the last dot (46).\<close>

definition after_last_dot :: "pystr \<Rightarrow> pystr" where
  "after_last_dot s = rev (takeWhile (\<lambda>c. c \<noteq> 46) (rev s))"

text \<open>
  \<^verbatim>\<open>
  def get_extension_from_response(response, default_ext: str) -> str:
      content_type = response.headers.get('Content-Type', '').lower()
      if 'csv' in content_type or 'text/csv' in content_type: return '.csv'
      elif 'json' in content_type: return '.json'
      elif 'zip' in content_type or 'application/zip' in content_type: return '.zip'
      elif 'excel' in content_type or 'spreadsheet' in content_type: return '.xlsx'
      elif 'xml' in content_type: return '.xml'
      content_disp = response.headers.get('Content-Disposition', '')
      if 'filename=' in content_disp:
          match = re.search(r'filename[^;=\n]*=([\'"]?)([^\'"\n]*)\1', content_disp)
          if match:
              filename = match.group(2)
              if '.' in filename:
                  return '.' + filename.split('.')[-1].lower()
      return default_ext
  \<close>
\<close>

definition header_or_empty :: "pystr option \<Rightarrow> pystr" where
  "header_or_empty h = (case h of None \<Rightarrow> [] | Some v \<Rightarrow> v)"

definition get_extension_from_response ::
  "'a pylib_scheme \<Rightarrow> 'b response_scheme \<Rightarrow> pystr \<Rightarrow> pystr" where
  "get_extension_from_response lib resp default_ext =
     (let content_type_l = lower lib (header_or_empty (content_type resp)) in
      if sublist (str ''csv'') content_type_l \<or> sublist (str ''text/csv'') content_type_l
        then str ''.csv''
      else if sublist (str ''json'') content_type_l then str ''.json''
      else if sublist (str ''zip'') content_type_l \<or> sublist (str ''application/zip'') content_type_l
        then str ''.zip''
      else if sublist (str ''excel'') content_type_l \<or> sublist (str ''spreadsheet'') content_type_l
        then str ''.xlsx''
      else if sublist (str ''xml'') content_type_l then str ''.xml''
      else
        (let content_disp = header_or_empty (content_disposition resp) in
         if sublist (str ''filename='') content_disp then
           (case search_filename content_disp of
              None \<Rightarrow> default_ext
            | Some filename \<Rightarrow>
                if 46 \<in> set filename then 46 # lower lib (after_last_dot filename)
                else default_ext)
         else default_ext))"

section \<open>Fetcher\<close>

definition RETRY_ATTEMPTS :: nat where "RETRY_ATTEMPTS = 3"
definition TIMEOUT :: nat where "TIMEOUT = 120"
definition OUTPUT_DIR :: pystr where "OUTPUT_DIR = str ''public_prices''"

text \<open>\<open>str(counter)\<close>: the decimal digits of a natural number (\<open>0\<close> is code point 48).\<close>

fun digits :: "nat \<Rightarrow> pystr" where
  "digits n = (if n < 10 then [48 + n] else digits (n div 10) @ [48 + n mod 10])"

declare digits.simps [simp del]

text \<open>\<open>f"{base_name}_{counter}{actual_ext}"\<close>\<close>

definition numbered :: "pystr \<Rightarrow> nat \<Rightarrow> pystr \<Rightarrow> pystr" where
  "numbered base_name counter ext = base_name @ [95] @ digits counter @ ext"

lemma digits_nonempty: "digits n \<noteq> []"
  by (subst digits.simps) simp

lemma digits_inj: "digits m = digits n \<Longrightarrow> m = n"
proof (induction m arbitrary: n rule: digits.induct)
  case (1 m)
  show ?case
  proof (cases "m < 10")
    case True
    show ?thesis
    proof (cases "n < 10")
      case True
      with \<open>m < 10\<close> "1.prems" show ?thesis by (simp add: digits.simps[of m] digits.simps[of n])
    next
      case False
      with \<open>m < 10\<close> "1.prems" have "[48 + m] = digits (n div 10) @ [48 + n mod 10]"
        by (simp add: digits.simps[of m] digits.simps[of n])
      then have "digits (n div 10) = []" by (metis append_is_Nil_conv butlast.simps(2) butlast_snoc)
      then show ?thesis using digits_nonempty by blast
    qed
  next
    case False
    show ?thesis
    proof (cases "n < 10")
      case True
      with \<open>\<not> m < 10\<close> "1.prems" have "digits (m div 10) @ [48 + m mod 10] = [48 + n]"
        by (simp add: digits.simps[of m] digits.simps[of n])
      then have "digits (m div 10) = []" by (metis append_is_Nil_conv butlast.simps(2) butlast_snoc)
      then show ?thesis using digits_nonempty by blast
    next
      case nb: False
      with \<open>\<not> m < 10\<close> "1.prems"
      have e: "digits (m div 10) @ [48 + m mod 10] = digits (n div 10) @ [48 + n mod 10]"
        by (simp add: digits.simps[of m] digits.simps[of n])
      then have "digits (m div 10) = digits (n div 10)" and md: "m mod 10 = n mod 10" by auto
      then have "m div 10 = n div 10" using "1.IH" \<open>\<not> m < 10\<close> by blast
      with md show ?thesis by (metis div_mult_mod_eq)
    qed
  qed
qed

lemma numbered_inj: "numbered b m e = numbered b n e \<Longrightarrow> m = n"
  by (simp add: numbered_def digits_inj)

lemma finite_numbered: "finite {k. c \<le> k \<and> numbered b k e \<in> set xs}"
proof -
  have "inj (\<lambda>k. numbered b k e)" by (rule injI) (rule numbered_inj)
  then have "finite ((\<lambda>k. numbered b k e) -` set xs)" by (simp add: finite_vimageI)
  moreover have "{k. c \<le> k \<and> numbered b k e \<in> set xs} \<subseteq> (\<lambda>k. numbered b k e) -` set xs" by auto
  ultimately show ?thesis by (rule rev_finite_subset)
qed

text \<open>
  \<^verbatim>\<open>
  counter = 1
  while filepath.exists():
      filename = f"{base_name}_{counter}{actual_ext}"
      filepath = region_dir / filename
      counter += 1
  \<close>
  \<open>existing\<close> lists the names present in the region directory. The directory holds
  finitely many names and the numbered names are pairwise different, so the loop ends.
\<close>

function dedup_loop :: "pystr list \<Rightarrow> pystr \<Rightarrow> pystr \<Rightarrow> pystr \<Rightarrow> nat \<Rightarrow> pystr" where
  "dedup_loop existing base_name ext filename counter =
     (if filename \<in> set existing
      then dedup_loop existing base_name ext (numbered base_name counter ext) (counter + 1)
      else filename)"
  by pat_completeness auto
termination
proof (relation "measure (\<lambda>(existing, base_name, ext, filename, counter).
          2 * card {k. counter \<le> k \<and> numbered base_name k ext \<in> set existing}
          + (if filename \<in> set existing then 1 else 0))", goal_cases)
  case 1
  show ?case by simp
next
  case (2 existing base_name ext filename counter)
  let ?A = "\<lambda>c. {k. c \<le> k \<and> numbered base_name k ext \<in> set existing}"
  have fin: "finite (?A counter)" by (rule finite_numbered)
  show ?case
  proof (cases "numbered base_name counter ext \<in> set existing")
    case True
    then have "counter \<in> ?A counter" by simp
    moreover have "?A (counter + 1) = ?A counter - {counter}" by auto
    ultimately have "card (?A (counter + 1)) = card (?A counter) - 1" and "card (?A counter) > 0"
      using fin by (auto simp: card_gt_0_iff)
    with 2 True show ?thesis by simp
  next
    case False
    then have "?A (counter + 1) = ?A counter"
      by (auto simp: Suc_le_eq) (metis le_neq_implies_less)
    with 2 False show ?thesis by simp
  qed
qed

declare dedup_loop.simps [simp del]


text \<open>The result dictionary of \<open>download_file\<close>.\<close>

record result =
  hospital :: pyval
  url :: pyval
  success :: bool
  filename :: "pystr option"
  error :: "pystr option"
  size :: nat

text \<open>
  The world a run acts on. A file is addressed by its directory under the output
  directory and its name, as \<open>region_dir / filename\<close> builds the path; \<open>files\<close> lists the
  files with their contents, the latest write first. \<open>requests_get n\<close> is what the
  \<open>n\<close>-th call of \<open>requests.get\<close> of the run does, \<open>calls\<close> counts the calls made, and
  \<open>open_error p\<close> is the message of the exception \<open>open(p, 'wb')\<close> raises, if it raises.
  \<open>slept\<close> records the calls of \<open>time.sleep\<close>; \<open>summary\<close> and \<open>log_file\<close> are the printed
  summary (successes, failures, bytes) and the rows of \<open>download_log.csv\<close>, once made.
  Creating a directory is taken to succeed, and the normalisation of paths by
  \<open>pathlib\<close> and the file system is outside the model.
\<close>

datatype pause = Backoff nat | RowDelay

datatype get_outcome = GetRaises exn | GetReturns response

type_synonym path = "pystr \<times> pystr"

record world =
  files :: "(path \<times> nat list) list"
  requests_get :: "nat \<Rightarrow> get_outcome"
  calls :: nat
  open_error :: "path \<Rightarrow> pystr option"
  slept :: "pause list"
  summary :: "(nat \<times> nat \<times> nat) option"
  log_file :: "result list option"

definition names_in :: "pystr \<Rightarrow> (path \<times> nat list) list \<Rightarrow> pystr list" where
  "names_in region_dir fs = map (\<lambda>(p, _). snd p) (filter (\<lambda>(p, _). fst p = region_dir) fs)"

text \<open>\<open>str(filepath.relative_to(output_dir.parent))\<close>; the separator is code point 47.\<close>

definition relative_path :: "pystr \<Rightarrow> pystr \<Rightarrow> pystr" where
  "relative_path region_dir name = OUTPUT_DIR @ [47] @ region_dir @ [47] @ name"

definition timeout_message :: "nat \<Rightarrow> pystr" where
  "timeout_message attempt =
     str ''Timeout after '' @ digits TIMEOUT @ str ''s (attempt '' @ digits (attempt + 1)
       @ str ''/'' @ digits RETRY_ATTEMPTS @ str '')''"

definition http_message :: "nat \<Rightarrow> pystr \<Rightarrow> pystr" where
  "http_message code why = str ''HTTP '' @ digits code @ str '': '' @ why"

definition unexpected_message :: "pystr \<Rightarrow> pystr" where
  "unexpected_message msg = str ''Unexpected error: '' @ msg"

text \<open>
  The body of the \<open>try\<close> of one attempt (lines 124 to 159): it returns the result from
  inside the loop or raises. \<open>raise_for_status\<close> raises \<open>HTTPError\<close> for a status from 400
  to 599. The file is opened for writing before the first chunk is read, so a stream
  that breaks leaves the file with the chunks written so far; empty chunks are skipped.
\<close>

datatype attempt_result = Returned result | Raised exn

definition try_attempt ::
  "'a pylib_scheme \<Rightarrow> pystr \<Rightarrow> pystr \<Rightarrow> pystr \<Rightarrow> result \<Rightarrow> world \<Rightarrow> attempt_result \<times> world" where
  "try_attempt lib region_dir base_name expected_ext res w =
     (let w1 = w\<lparr>calls := calls w + 1\<rparr> in
      case requests_get w (calls w) of
        GetRaises e \<Rightarrow> (Raised e, w1)
      | GetReturns resp \<Rightarrow>
          if 400 \<le> status_code resp \<and> status_code resp < 600
          then (Raised (HTTPError (status_code resp) (reason resp)), w1)
          else
            (let actual_ext = get_extension_from_response lib resp expected_ext;
                 name = dedup_loop (names_in region_dir (files w1)) base_name actual_ext
                          (base_name @ actual_ext) 1;
                 filepath = (region_dir, name)
             in case open_error w1 filepath of
                  Some msg \<Rightarrow> (Raised (OtherException msg), w1)
                | None \<Rightarrow>
                    (let written = concat (filter (\<lambda>chunk. chunk \<noteq> []) (chunks resp));
                         w2 = w1\<lparr>files := (filepath, written) # files w1\<rparr>
                     in case stream_error resp of
                          Some e \<Rightarrow> (Raised e, w2)
                        | None \<Rightarrow>
                            (Returned (res\<lparr>success := True,
                                           filename := Some (relative_path region_dir name),
                                           size := length written\<rparr>), w2))))"

text \<open>
  \<^verbatim>\<open>
  for attempt in range(RETRY_ATTEMPTS):
      try:
          ...
          return result
      except requests.exceptions.Timeout:
          result["error"] = f"Timeout after {TIMEOUT}s (attempt {attempt + 1}/{RETRY_ATTEMPTS})"
          if attempt < RETRY_ATTEMPTS - 1:
              time.sleep(2 ** attempt)
      except requests.exceptions.HTTPError as e:
          result["error"] = f"HTTP {e.response.status_code}: {e.response.reason}"
          break
      except requests.exceptions.RequestException as e:
          result["error"] = str(e)
          if attempt < RETRY_ATTEMPTS - 1:
              time.sleep(2 ** attempt)
      except Exception as e:
          result["error"] = f"Unexpected error: {str(e)}"
          break
  return result
  \<close>
\<close>

definition backoff :: "nat \<Rightarrow> world \<Rightarrow> world" where
  "backoff attempt w =
     (if attempt < RETRY_ATTEMPTS - 1 then w\<lparr>slept := slept w @ [Backoff (2 ^ attempt)]\<rparr> else w)"

function retry_loop ::
  "'a pylib_scheme \<Rightarrow> pystr \<Rightarrow> pystr \<Rightarrow> pystr \<Rightarrow> nat \<Rightarrow> result \<Rightarrow> world \<Rightarrow> result \<times> world" where
  "retry_loop lib region_dir base_name expected_ext attempt res w =
     (if attempt < RETRY_ATTEMPTS then
        (case try_attempt lib region_dir base_name expected_ext res w of
           (Returned res', w') \<Rightarrow> (res', w')
         | (Raised Timeout, w') \<Rightarrow>
             retry_loop lib region_dir base_name expected_ext (attempt + 1)
               (res\<lparr>error := Some (timeout_message attempt)\<rparr>) (backoff attempt w')
         | (Raised (HTTPError code why), w') \<Rightarrow>
             (res\<lparr>error := Some (http_message code why)\<rparr>, w')
         | (Raised (RequestException msg), w') \<Rightarrow>
             retry_loop lib region_dir base_name expected_ext (attempt + 1)
               (res\<lparr>error := Some msg\<rparr>) (backoff attempt w')
         | (Raised (OtherException msg), w') \<Rightarrow>
             (res\<lparr>error := Some (unexpected_message msg)\<rparr>, w'))
      else (res, w))"
  by pat_completeness auto
termination
  by (relation "measure (\<lambda>(lib, region_dir, base_name, expected_ext, attempt, res, w).
                   RETRY_ATTEMPTS - attempt)") auto

declare retry_loop.simps [simp del]

text \<open>
  \<open>download_file\<close>, lines 103 to 180. \<open>re.sub\<close> raises \<open>TypeError\<close> on \<open>None\<close>, and the
  calls before the loop stand outside the \<open>try\<close>, so their exceptions leave the function.
\<close>

definition download_file ::
  "'a pylib_scheme \<Rightarrow> world \<Rightarrow> pyval \<Rightarrow> pyval \<Rightarrow> pyval \<Rightarrow> pyval \<Rightarrow> pyerror + result \<times> world" where
  "download_file lib w hospital_name url_arg file_type region =
     (let res = \<lparr>hospital = hospital_name, url = url_arg, success = False,
                  filename = None, error = None, size = 0\<rparr>
      in case region of
           None \<Rightarrow> Inl TypeError
         | Some r \<Rightarrow>
             (let region_dir = sanitize_filename lib r in
              case hospital_name of
                None \<Rightarrow> Inl TypeError
              | Some n \<Rightarrow>
                  (let base_name = sanitize_filename lib n in
                   case get_extension_from_url lib url_arg file_type of
                     Inl e \<Rightarrow> Inl e
                   | Inr expected_ext \<Rightarrow>
                       Inr (retry_loop lib region_dir base_name expected_ext 0 res w))))"

section \<open>Pipeline orchestrator\<close>









section \<open>The sanitizer: properties\<close>

text \<open>
  The characters of the claim about the output: lowercase ASCII letters, digits, dash,
  underscore and dot. A character is removed by the sanitizer when the first
  substitution drops it, or when it is no whitespace and the third drops it.
\<close>

definition allowed_char :: "nat \<Rightarrow> bool" where
  "allowed_char c \<longleftrightarrow> (97 \<le> c \<and> c \<le> 122) \<or> (48 \<le> c \<and> c \<le> 57) \<or> c = 45 \<or> c = 95 \<or> c = 46"

definition removed_char :: "'a pylib_scheme \<Rightarrow> nat \<Rightarrow> bool" where
  "removed_char lib c \<longleftrightarrow> problematic c \<or> (\<not> isspace lib c \<and> \<not> keep_char lib c)"

text \<open>
  A sample of the interpreter's tables: ASCII as above, and the two code points the
  evaluation below consults beyond it. U+0130 (304, capital I with dot above) is a
  letter, and \<open>'\u0130'.lower()\<close> is \<open>'i\u0307'\<close>: the letter \<open>i\<close> (105) and the combining dot
  above (775), which is neither alphanumeric nor whitespace. The URL path of the
  sample is the string itself, and \<open>ValueError\<close> for \<open>http://[\<close>, where \<open>urlparse\<close> raises
  "Invalid IPv6 URL"; the evaluations below give it a path or that string, nothing else.
\<close>

definition unicode_sample :: pylib where
  "unicode_sample =
     \<lparr> isalnum = (\<lambda>c. ascii_isalnum c \<or> c = 304),
       isspace = ascii_isspace,
       lower = (\<lambda>s. concat (map (\<lambda>c. if c = 304 then [105, 775] else [ascii_lower c]) s)),
       url_path = (\<lambda>u. case u of None \<Rightarrow> Inr []
                        | Some v \<Rightarrow> if v = str ''http://['' then Inl ValueError else Inr v) \<rparr>"

lemma collapse_ws_id: "\<forall>c \<in> set s. \<not> sp c \<Longrightarrow> collapse_ws sp s = s"
  by (induction s) auto

lemma set_collapse_ws: "set (collapse_ws sp s) \<subseteq> insert 95 (set s)"
proof (induction sp s rule: collapse_ws.induct)
  case (1 sp)
  then show ?case by simp
next
  case (2 sp c cs)
  have "set (dropWhile sp cs) \<subseteq> set cs" by (simp add: set_dropWhileD subsetI)
  with 2 show ?case by (auto split: if_splits)
qed

lemma lower_ascii: "ascii_faithful lib \<Longrightarrow> is_ascii s \<Longrightarrow> lower lib s = map ascii_lower s"
  by (simp add: ascii_faithful_def)

lemma allowed_fixed:
  assumes f: "ascii_faithful lib" and a: "list_all allowed_char z" and l: "length z \<le> 100"
  shows "sanitize_filename lib z = z"
proof -
  have asc: "is_ascii z" using a by (auto simp: is_ascii_def allowed_char_def list_all_iff)
  have lt: "\<forall>c \<in> set z. c < 128" using asc by (simp add: is_ascii_def list_all_iff)
  have np: "\<forall>c \<in> set z. \<not> problematic c"
    using a by (auto simp: problematic_def allowed_char_def list_all_iff)
  have ns: "\<forall>c \<in> set z. \<not> isspace lib c"
    using a f lt by (auto simp: ascii_faithful_def ascii_isspace_def allowed_char_def list_all_iff)
  have kp: "\<forall>c \<in> set z. keep_char lib c"
    using a f lt by (auto simp: ascii_faithful_def keep_char_def is_word_def ascii_isalnum_def allowed_char_def list_all_iff)
  have lw: "map ascii_lower z = z"
    using a by (intro map_idI) (auto simp: ascii_lower_def allowed_char_def list_all_iff)
  have s1: "filter (\<lambda>c. \<not> problematic c) z = z" using np by simp
  have s2: "collapse_ws (isspace lib) z = z" using ns by (rule collapse_ws_id)
  have s3: "filter (keep_char lib) z = z" using kp by simp
  show ?thesis
    using l by (simp add: sanitize_filename_def s1 s2 s3 lower_ascii[OF f asc] lw)
qed

lemma sanitize_ascii_allowed:
  assumes f: "ascii_faithful lib" and asc: "is_ascii x"
  shows "list_all allowed_char (sanitize_filename lib x)"
proof -
  let ?y = "filter (keep_char lib) (collapse_ws (isspace lib) (filter (\<lambda>c. \<not> problematic c) x))"
  have sub: "set ?y \<subseteq> insert 95 (set x)"
    using set_collapse_ws[of "isspace lib" "filter (\<lambda>c. \<not> problematic c) x"] by auto
  have lt: "\<forall>c \<in> set ?y. c < 128"
    using sub asc by (auto simp: is_ascii_def list_all_iff)
  then have ay: "is_ascii ?y" by (simp add: is_ascii_def list_all_iff)
  have k: "\<forall>c \<in> set ?y. keep_char lib c" by simp
  have al: "\<forall>c \<in> set ?y. allowed_char (ascii_lower c)"
  proof
    fix c assume c: "c \<in> set ?y"
    then have "c < 128" and "keep_char lib c" using lt k by blast+
    then have "ascii_isalnum c \<or> c = 45 \<or> c = 95 \<or> c = 46"
      using f by (auto simp: ascii_faithful_def keep_char_def is_word_def)
    then show "allowed_char (ascii_lower c)"
      by (auto simp: ascii_isalnum_def ascii_lower_def allowed_char_def)
  qed
  have "sanitize_filename lib x = take 100 (map ascii_lower ?y)"
    by (simp add: sanitize_filename_def lower_ascii[OF f ay])
  moreover have "list_all allowed_char (take 100 (map ascii_lower ?y))"
  proof -
    have "set (take 100 (map ascii_lower ?y)) \<subseteq> ascii_lower ` set ?y"
      using set_take_subset[of 100 "map ascii_lower ?y"] by simp
    then show ?thesis using al unfolding list_all_iff by blast
  qed
  ultimately show ?thesis by simp
qed

lemma sanitize_all_removed:
  assumes f: "ascii_faithful lib" and r: "list_all (removed_char lib) x"
  shows "sanitize_filename lib x = []"
proof -
  let ?x1 = "filter (\<lambda>c. \<not> problematic c) x"
  have a: "\<forall>c \<in> set ?x1. \<not> isspace lib c \<and> \<not> keep_char lib c"
    using r by (auto simp: list_all_iff removed_char_def)
  then have "collapse_ws (isspace lib) ?x1 = ?x1" by (intro collapse_ws_id) blast
  moreover have "filter (keep_char lib) ?x1 = []" using a by (auto simp: filter_empty_conv)
  moreover have "lower lib [] = []" using f by (simp add: ascii_faithful_def is_ascii_def)
  ultimately show ?thesis by (simp add: sanitize_filename_def)
qed

lemma ascii_faithful_sample: "ascii_faithful unicode_sample"
  unfolding ascii_faithful_def
proof (intro conjI allI impI)
  fix s :: pystr assume "is_ascii s"
  then have "\<forall>c \<in> set s. c \<noteq> 304" by (auto simp: is_ascii_def list_all_iff)
  then have "concat (map (\<lambda>c. if c = 304 then [105, 775] else [ascii_lower c]) s) = map ascii_lower s"
    by (induction s) auto
  then show "lower unicode_sample s = map ascii_lower s" by (simp add: unicode_sample_def)
qed (auto simp: unicode_sample_def)

text \<open>
  C4, as the code has it. The sanitizer is a total function of its input, and its output
  has at most 100 characters, whatever the input. With an interpreter whose tables
  are Unicode's on ASCII: an input whose every character is removed gives the empty
  string; and for an input of ASCII characters the sanitizer is idempotent and its
  output holds only lowercase letters, digits, dash, underscore and dot.
\<close>

theorem sanitize_filename_ascii:
  assumes "ascii_faithful lib"
  shows "length (sanitize_filename lib x) \<le> 100 \<and>
         (list_all (removed_char lib) x \<longrightarrow> sanitize_filename lib x = []) \<and>
         (is_ascii x \<longrightarrow>
            sanitize_filename lib (sanitize_filename lib x) = sanitize_filename lib x \<and>
            list_all allowed_char (sanitize_filename lib x))"
proof (intro conjI impI)
  show l: "length (sanitize_filename lib x) \<le> 100"
    by (simp add: sanitize_filename_def Let_def)
  show "sanitize_filename lib x = []" if "list_all (removed_char lib) x"
    using sanitize_all_removed[OF assms that] .
  show "list_all allowed_char (sanitize_filename lib x)" if "is_ascii x"
    using sanitize_ascii_allowed[OF assms that] .
  show "sanitize_filename lib (sanitize_filename lib x) = sanitize_filename lib x" if "is_ascii x"
    using allowed_fixed[OF assms sanitize_ascii_allowed[OF assms that] l] .
qed

text \<open>
  The theorem at work: \<open><>\<close> is ASCII and all removed, and \<open>"A b"\<close> is ASCII and
  sanitizes to \<open>"a_b"\<close>.
\<close>

theorem sanitize_filename_ascii_witness:
  "ascii_faithful unicode_sample \<and>
   list_all (removed_char unicode_sample) [60, 62] \<and> is_ascii [60, 62] \<and>
   sanitize_filename unicode_sample [60, 62] = [] \<and>
   is_ascii [65, 32, 98] \<and>
   sanitize_filename unicode_sample [65, 32, 98] = [97, 95, 98] \<and>
   sanitize_filename unicode_sample (sanitize_filename unicode_sample [65, 32, 98])
     = sanitize_filename unicode_sample [65, 32, 98] \<and>
   list_all allowed_char (sanitize_filename unicode_sample [65, 32, 98])"
proof -
  have r: "list_all (removed_char unicode_sample) [60, 62]"
    by (simp add: removed_char_def problematic_def)
  have a1: "is_ascii [60, 62]" and a2: "is_ascii [65, 32, 98]"
    by (simp_all add: is_ascii_def)
  have v: "sanitize_filename unicode_sample [65, 32, 98] = [97, 95, 98]"
    by (simp add: sanitize_filename_def unicode_sample_def problematic_def keep_char_def
          is_word_def ascii_isalnum_def ascii_isspace_def ascii_lower_def)
  show ?thesis
    using sanitize_filename_ascii[OF ascii_faithful_sample, of "[60, 62]"]
      sanitize_filename_ascii[OF ascii_faithful_sample, of "[65, 32, 98]"]
      ascii_faithful_sample r a1 a2 v
    by simp
qed

text \<open>
  Idempotence fails beyond ASCII: the name U+0130 sanitizes to \<open>i\<close> followed by the
  combining dot, and the second pass drops the dot, which \<open>\w\<close> does not match.
\<close>

theorem sanitize_filename_not_idempotent:
  "sanitize_filename unicode_sample [304] = [105, 775] \<and>
   sanitize_filename unicode_sample (sanitize_filename unicode_sample [304]) = [105]"
  by (simp add: sanitize_filename_def unicode_sample_def problematic_def keep_char_def
        is_word_def ascii_isalnum_def ascii_isspace_def ascii_lower_def)

section \<open>The extension resolver: precedence\<close>

text \<open>
  The precedence as the specification words it, over the path of the URL: the
  recognised suffixes of the path first, then the first entry of the table of declared
  types whose key occurs in the lowercased declared type, then \<open>.json\<close>.
\<close>

definition url_suffixes :: "pystr list" where
  "url_suffixes = [str ''.csv'', str ''.json'', str ''.zip'', str ''.xlsx'', str ''.xml'']"

definition declared_types :: "(pystr \<times> pystr) list" where
  "declared_types = [(str ''csv'', str ''.csv''), (str ''json'', str ''.json''),
                     (str ''zip'', str ''.zip''), (str ''api'', str ''.json'')]"

definition guess_from_request :: "'a pylib_scheme \<Rightarrow> pystr \<Rightarrow> pystr \<Rightarrow> pystr" where
  "guess_from_request lib path declared_type =
     (case find (\<lambda>e. suffix e path) url_suffixes of
        Some e \<Rightarrow> e
      | None \<Rightarrow>
          (case find (\<lambda>(k, e). sublist k (lower lib declared_type)) declared_types of
             Some (k, e) \<Rightarrow> e
           | None \<Rightarrow> str ''.json''))"

text \<open>
  After the response, the specification reads the content type first: the first entry
  of the table below one of whose keys occurs in the lowercased \<open>Content-Type\<close>.
\<close>

definition content_types :: "(pystr list \<times> pystr) list" where
  "content_types =
     [([str ''csv'', str ''text/csv''], str ''.csv''),
      ([str ''json''], str ''.json''),
      ([str ''zip'', str ''application/zip''], str ''.zip''),
      ([str ''excel'', str ''spreadsheet''], str ''.xlsx''),
      ([str ''xml''], str ''.xml'')]"

definition guess_from_content_type :: "'a pylib_scheme \<Rightarrow> pystr \<Rightarrow> pystr option" where
  "guess_from_content_type lib ctype =
     map_option snd
       (find (\<lambda>(keys, e). list_ex (\<lambda>k. sublist k (lower lib ctype)) keys) content_types)"

text \<open>
  The filename parameter of a \<open>Content-Disposition\<close> header, as the header is written:
  the disposition type and the parameters stand between semicolons (59), a parameter
  is a name, \<open>=\<close> (61) and a value, spaces (32) around them do not count, and a value
  may stand in double quotes (34). The filename parameter is the value of the first
  parameter named \<open>filename\<close>; its suffix is what follows its last dot (46), lowercased,
  after a dot. These definitions follow the header and the specification, not the
  regular expression of the source.
\<close>

fun split_on :: "nat \<Rightarrow> pystr \<Rightarrow> pystr list" where
  "split_on c [] = [[]]"
| "split_on c (x # xs) =
     (if x = c then [] # split_on c xs
      else (case split_on c xs of [] \<Rightarrow> [[x]] | p # ps \<Rightarrow> (x # p) # ps))"

definition strip_spaces :: "pystr \<Rightarrow> pystr" where
  "strip_spaces s = rev (dropWhile (\<lambda>c. c = 32) (rev (dropWhile (\<lambda>c. c = 32) s)))"

definition parameter_name :: "pystr \<Rightarrow> pystr" where
  "parameter_name p = strip_spaces (takeWhile (\<lambda>c. c \<noteq> 61) p)"

definition parameter_value :: "pystr \<Rightarrow> pystr" where
  "parameter_value p =
     (let v = strip_spaces (drop 1 (dropWhile (\<lambda>c. c \<noteq> 61) p))
      in if 2 \<le> length v \<and> hd v = 34 \<and> last v = 34 then butlast (tl v) else v)"

definition filename_parameter :: "pystr \<Rightarrow> pystr option" where
  "filename_parameter header =
     map_option parameter_value
       (find (\<lambda>p. 61 \<in> set p \<and> parameter_name p = str ''filename'') (split_on 59 header))"

definition filename_suffix :: "'a pylib_scheme \<Rightarrow> pystr \<Rightarrow> pystr" where
  "filename_suffix lib name = 46 # lower lib (last (split_on 46 name))"

definition disposition_response :: "pystr \<Rightarrow> response" where
  "disposition_response header =
     \<lparr>status_code = 200, reason = str ''OK'', content_type = None,
      content_disposition = Some header, chunks = [], stream_error = None\<rparr>"

definition sample_response :: response where
  "sample_response =
     \<lparr>status_code = 200, reason = str ''OK'', content_type = Some (str ''text/csv''),
      content_disposition = None, chunks = [[104, 105], [], [33]], stream_error = None\<rparr>"

lemma lower_sample_ascii: "is_ascii s \<Longrightarrow> lower unicode_sample s = map ascii_lower s"
  using ascii_faithful_sample by (simp add: ascii_faithful_def)

text \<open>
  C5, as the code has it. For every URL whose path the URL parser yields and every
  declared type, the resolver returns the extension the precedence gives: a recognised
  suffix of the path wins, whatever the declared type; otherwise the declared type
  decides, \<open>api\<close> giving \<open>.json\<close>; otherwise \<open>.json\<close>. When the parser raises, the resolver
  raises the same exception.
\<close>

theorem get_extension_from_url_precedence:
  "get_extension_from_url lib u (Some ft) =
     (case url_path lib u of
        Inl e \<Rightarrow> Inl e
      | Inr path \<Rightarrow> Inr (guess_from_request lib path ft)) \<and>
   (url_path lib u = Inr path \<and> suffix (str ''data.csv'') path \<longrightarrow>
      get_extension_from_url lib u (Some ft) = Inr (str ''.csv'')) \<and>
   (url_path lib u = Inr path \<and> \<not> list_ex (\<lambda>e. suffix e path) url_suffixes \<and>
      lower lib ft = str ''api'' \<longrightarrow>
      get_extension_from_url lib u (Some ft) = Inr (str ''.json''))"
proof (intro conjI impI)
  show "get_extension_from_url lib u (Some ft) =
     (case url_path lib u of
        Inl e \<Rightarrow> Inl e
      | Inr path \<Rightarrow> Inr (guess_from_request lib path ft))"
    by (simp add: get_extension_from_url_def guess_from_request_def url_suffixes_def
          declared_types_def Let_def split: sum.splits)
next
  assume a: "url_path lib u = Inr path \<and> suffix (str ''data.csv'') path"
  have "suffix (str ''.csv'') (str ''data.csv'')"
    by (simp add: str_def suffix_to_prefix)
  with a have "suffix (str ''.csv'') path" by (blast intro: suffix_order.trans)
  with a show "get_extension_from_url lib u (Some ft) = Inr (str ''.csv'')"
    by (simp add: get_extension_from_url_def)
next
  assume a: "url_path lib u = Inr path \<and> \<not> list_ex (\<lambda>e. suffix e path) url_suffixes \<and>
      lower lib ft = str ''api''"
  have "\<not> sublist (str ''csv'') (str ''api'')" "\<not> sublist (str ''json'') (str ''api'')"
    "\<not> sublist (str ''zip'') (str ''api'')"
    by (simp_all add: str_def sublist_Cons_right)
  with a show "get_extension_from_url lib u (Some ft) = Inr (str ''.json'')"
    by (simp add: get_extension_from_url_def url_suffixes_def Let_def)
qed

text \<open>
  The theorem at work: the path \<open>/files/data.csv\<close> with declared type \<open>API\<close> resolves to
  \<open>.csv\<close>, and the path \<open>/v1/prices\<close> with declared type \<open>API\<close> to \<open>.json\<close>.
\<close>

theorem get_extension_from_url_precedence_witness:
  "url_path unicode_sample (Some (str ''/files/data.csv'')) = Inr (str ''/files/data.csv'') \<and>
   suffix (str ''data.csv'') (str ''/files/data.csv'') \<and>
   get_extension_from_url unicode_sample (Some (str ''/files/data.csv'')) (Some (str ''API''))
     = Inr (str ''.csv'') \<and>
   url_path unicode_sample (Some (str ''/v1/prices'')) = Inr (str ''/v1/prices'') \<and>
   \<not> list_ex (\<lambda>e. suffix e (str ''/v1/prices'')) url_suffixes \<and>
   lower unicode_sample (str ''API'') = str ''api'' \<and>
   get_extension_from_url unicode_sample (Some (str ''/v1/prices'')) (Some (str ''API''))
     = Inr (str ''.json'')"
proof -
  have p1: "url_path unicode_sample (Some (str ''/files/data.csv'')) = Inr (str ''/files/data.csv'')"
    and p2: "url_path unicode_sample (Some (str ''/v1/prices'')) = Inr (str ''/v1/prices'')"
    by (simp_all add: unicode_sample_def str_def)
  have s1: "suffix (str ''data.csv'') (str ''/files/data.csv'')"
    by (simp add: str_def suffix_to_prefix)
  have s2: "\<not> list_ex (\<lambda>e. suffix e (str ''/v1/prices'')) url_suffixes"
    by (simp add: url_suffixes_def str_def suffix_to_prefix)
  have l: "lower unicode_sample (str ''API'') = str ''api''"
    by (simp add: lower_sample_ascii is_ascii_def str_def ascii_lower_def)
  have a: "get_extension_from_url unicode_sample (Some (str ''/files/data.csv'')) (Some (str ''API''))
             = Inr (str ''.csv'')"
    using get_extension_from_url_precedence
            [of unicode_sample "Some (str ''/files/data.csv'')" "str ''API''" "str ''/files/data.csv''"]
          p1 s1
    by blast
  have b: "get_extension_from_url unicode_sample (Some (str ''/v1/prices'')) (Some (str ''API''))
             = Inr (str ''.json'')"
    using get_extension_from_url_precedence
            [of unicode_sample "Some (str ''/v1/prices'')" "str ''API''" "str ''/v1/prices''"]
          p2 s2 l
    by blast
  show ?thesis by (intro conjI p1 s1 a p2 s2 l b)
qed

text \<open>
  The resolver is not total: on \<open>http://[\<close> the URL parser raises \<open>ValueError\<close>, and so
  does the resolver, whatever the declared type.
\<close>

theorem get_extension_from_url_raises:
  "get_extension_from_url unicode_sample (Some (str ''http://['')) (Some (str ''CSV''))
     = Inl ValueError"
  by (simp add: get_extension_from_url_def unicode_sample_def)

text \<open>
  The content type decides when it matches, whatever the other header and the
  fallback are, and a response that matches no content type and has no
  \<open>Content-Disposition\<close> gets the fallback.
\<close>

lemma content_type_decides:
  "guess_from_content_type lib (header_or_empty (content_type resp)) = Some e \<Longrightarrow>
   get_extension_from_response lib resp fallback = e"
  by (auto simp: guess_from_content_type_def content_types_def get_extension_from_response_def
        Let_def split: if_splits)

lemma fallback_without_headers:
  "guess_from_content_type lib (header_or_empty (content_type resp)) = None \<Longrightarrow>
   content_disposition resp = None \<Longrightarrow>
   get_extension_from_response lib resp fallback = fallback"
  by (auto simp: guess_from_content_type_def content_types_def get_extension_from_response_def
        header_or_empty_def str_def Let_def split: if_splits)

text \<open>
  C6 at the header \<open>attachment; filename=report.CSV; size=3\<close>, with no content type and
  the fallback \<open>.json\<close>. The filename parameter is \<open>report.CSV\<close> and its suffix is \<open>.csv\<close>;
  the resolver returns \<open>.csv; size=3\<close>, since group 2 of the regular expression runs
  to the next quote or newline and takes the parameters after an unquoted file name
  with it.
\<close>

theorem get_extension_from_response_takes_parameters:
  "filename_parameter (str ''attachment; filename=report.CSV; size=3'') = Some (str ''report.CSV'') \<and>
   filename_suffix unicode_sample (str ''report.CSV'') = str ''.csv'' \<and>
   get_extension_from_response unicode_sample
      (disposition_response (str ''attachment; filename=report.CSV; size=3'')) (str ''.json'')
     = str ''.csv; size=3''"
  by (simp add: get_extension_from_response_def disposition_response_def header_or_empty_def
        unicode_sample_def str_def ascii_lower_def sublist_Cons_right match_here_def
        match_value_def param_char_def value_char_def after_last_dot_def filename_parameter_def
        parameter_name_def parameter_value_def strip_spaces_def filename_suffix_def Let_def)

section \<open>The fetcher: properties\<close>

lemma dedup_loop_free: "fname \<notin> set existing \<Longrightarrow> dedup_loop existing b e fname c = fname"
  by (simp add: dedup_loop.simps)

lemma dedup_loop_numbered:
  assumes "fname \<in> set existing"
    and "\<forall>j. c \<le> j \<and> j < k \<longrightarrow> numbered b j e \<in> set existing"
    and "numbered b k e \<notin> set existing" and "c \<le> k"
  shows "dedup_loop existing b e fname c = numbered b k e"
  using assms
proof (induction "k - c" arbitrary: c fname)
  case 0
  then have "c = k" by simp
  with 0 show ?case by (simp add: dedup_loop.simps[of existing b e fname] dedup_loop_free)
next
  case (Suc d)
  then have lt: "c < k" by simp
  with Suc.prems have in_c: "numbered b c e \<in> set existing" by simp
  have "dedup_loop existing b e (numbered b c e) (c + 1) = numbered b k e"
  proof (rule Suc.hyps(1))
    show "d = k - (c + 1)" using Suc.hyps(2) by simp
    show "numbered b c e \<in> set existing" by (rule in_c)
    show "\<forall>j. c + 1 \<le> j \<and> j < k \<longrightarrow> numbered b j e \<in> set existing" using Suc.prems(2) by simp
    show "numbered b k e \<notin> set existing" by (rule Suc.prems(3))
    show "c + 1 \<le> k" using lt by simp
  qed
  with Suc.prems(1) show ?case by (simp add: dedup_loop.simps[of existing b e fname])
qed

lemma free_number_exists: "\<exists>k\<ge>c. numbered b k e \<notin> set existing"
proof (rule ccontr)
  assume "\<not> ?thesis"
  then have "{k. c \<le> k} \<subseteq> {k. c \<le> k \<and> numbered b k e \<in> set existing}" by auto
  then have "finite {k. c \<le> k}" using finite_numbered rev_finite_subset by blast
  moreover have "infinite {k. c \<le> k}"
    by (metis (mono_tags, lifting) finite_nat_set_iff_bounded_le mem_Collect_eq le_add2 not_less_eq_eq nat_le_linear)
  ultimately show False by simp
qed

lemma dedup_loop_spec:
  fixes existing b e
  defines "name \<equiv> dedup_loop existing b e (b @ e) 1"
  shows "name \<notin> set existing"
    and "b @ e \<notin> set existing \<Longrightarrow> name = b @ e"
    and "b @ e \<in> set existing \<Longrightarrow>
           \<exists>k\<ge>1. name = numbered b k e \<and> (\<forall>j. 1 \<le> j \<and> j < k \<longrightarrow> numbered b j e \<in> set existing)"
proof -
  show f: "b @ e \<notin> set existing \<Longrightarrow> name = b @ e" by (simp add: name_def dedup_loop_free)
  have n: "\<exists>k\<ge>1. name = numbered b k e \<and> numbered b k e \<notin> set existing \<and>
     (\<forall>j. 1 \<le> j \<and> j < k \<longrightarrow> numbered b j e \<in> set existing)" if i: "b @ e \<in> set existing"
  proof -
    define k where "k = (LEAST k. 1 \<le> k \<and> numbered b k e \<notin> set existing)"
    have ex: "\<exists>k. 1 \<le> k \<and> numbered b k e \<notin> set existing" using free_number_exists[of 1 b e existing] by blast
    have k1: "1 \<le> k \<and> numbered b k e \<notin> set existing" unfolding k_def by (rule LeastI_ex[OF ex])
    have k2: "\<forall>j. 1 \<le> j \<and> j < k \<longrightarrow> numbered b j e \<in> set existing"
      unfolding k_def using not_less_Least by blast
    have "name = numbered b k e" unfolding name_def using i k2 k1 by (intro dedup_loop_numbered) auto
    with k1 k2 show ?thesis by blast
  qed
  then show "b @ e \<in> set existing \<Longrightarrow>
           \<exists>k\<ge>1. name = numbered b k e \<and> (\<forall>j. 1 \<le> j \<and> j < k \<longrightarrow> numbered b j e \<in> set existing)"
    by blast
  show "name \<notin> set existing"
  proof (cases "b @ e \<in> set existing")
    case True then show ?thesis using n by auto
  next
    case False then show ?thesis using f by simp
  qed
qed

text \<open>
  The name an attempt writes to, and the bytes it writes: the names of lines 135 to
  144 and the non-empty chunks of lines 149 to 152.
\<close>

definition target_name :: "'a pylib_scheme \<Rightarrow> pystr \<Rightarrow> pystr \<Rightarrow> pystr \<Rightarrow> response \<Rightarrow> world \<Rightarrow> pystr" where
  "target_name lib region_dir base_name expected_ext resp w =
     (let actual_ext = get_extension_from_response lib resp expected_ext
      in dedup_loop (names_in region_dir (files w)) base_name actual_ext (base_name @ actual_ext) 1)"

definition body_written :: "response \<Rightarrow> nat list" where
  "body_written resp = concat (filter (\<lambda>chunk. chunk \<noteq> []) (chunks resp))"

lemma try_attempt_cases:
  fixes lib :: "'a pylib_scheme"
  obtains
    (get_raises) e where "requests_get w (calls w) = GetRaises e"
      "try_attempt lib rd bn ee res w = (Raised e, w\<lparr>calls := calls w + 1\<rparr>)"
  | (http_error) resp where "requests_get w (calls w) = GetReturns resp"
      "400 \<le> status_code resp" "status_code resp < 600"
      "try_attempt lib rd bn ee res w =
         (Raised (HTTPError (status_code resp) (reason resp)), w\<lparr>calls := calls w + 1\<rparr>)"
  | (open_fails) resp msg where "requests_get w (calls w) = GetReturns resp"
      "\<not> (400 \<le> status_code resp \<and> status_code resp < 600)"
      "open_error w (rd, target_name lib rd bn ee resp w) = Some msg"
      "try_attempt lib rd bn ee res w = (Raised (OtherException msg), w\<lparr>calls := calls w + 1\<rparr>)"
  | (stream_fails) resp e where "requests_get w (calls w) = GetReturns resp"
      "\<not> (400 \<le> status_code resp \<and> status_code resp < 600)"
      "open_error w (rd, target_name lib rd bn ee resp w) = None"
      "stream_error resp = Some e"
      "try_attempt lib rd bn ee res w =
         (Raised e, w\<lparr>calls := calls w + 1,
            files := ((rd, target_name lib rd bn ee resp w), body_written resp) # files w\<rparr>)"
  | (ok) resp where "requests_get w (calls w) = GetReturns resp"
      "\<not> (400 \<le> status_code resp \<and> status_code resp < 600)"
      "open_error w (rd, target_name lib rd bn ee resp w) = None"
      "stream_error resp = None"
      "try_attempt lib rd bn ee res w =
         (Returned (res\<lparr>success := True,
             filename := Some (relative_path rd (target_name lib rd bn ee resp w)),
             size := length (body_written resp)\<rparr>),
          w\<lparr>calls := calls w + 1,
            files := ((rd, target_name lib rd bn ee resp w), body_written resp) # files w\<rparr>)"
proof (cases "requests_get w (calls w)")
  case (GetRaises e)
  then have "try_attempt lib rd bn ee res w = (Raised e, w\<lparr>calls := calls w + 1\<rparr>)"
    by (simp add: try_attempt_def)
  with GetRaises show ?thesis by (rule get_raises)
next
  case (GetReturns resp)
  show ?thesis
  proof (cases "400 \<le> status_code resp \<and> status_code resp < 600")
    case True
    with GetReturns have "try_attempt lib rd bn ee res w =
         (Raised (HTTPError (status_code resp) (reason resp)), w\<lparr>calls := calls w + 1\<rparr>)"
      by (simp add: try_attempt_def)
    with GetReturns True show ?thesis using http_error[of resp] by blast
  next
    case ns: False
    show ?thesis
    proof (cases "open_error w (rd, target_name lib rd bn ee resp w)")
      case (Some msg)
      with GetReturns ns have "try_attempt lib rd bn ee res w =
          (Raised (OtherException msg), w\<lparr>calls := calls w + 1\<rparr>)"
        by (auto simp: try_attempt_def target_name_def Let_def)
      with GetReturns ns Some show ?thesis by (rule open_fails)
    next
      case None
      show ?thesis
      proof (cases "stream_error resp")
        case (Some e)
        with GetReturns ns None have "try_attempt lib rd bn ee res w =
         (Raised e, w\<lparr>calls := calls w + 1,
            files := ((rd, target_name lib rd bn ee resp w), body_written resp) # files w\<rparr>)"
          by (auto simp: try_attempt_def target_name_def body_written_def Let_def)
        with GetReturns ns None Some show ?thesis by (rule stream_fails)
      next
        case sn: None
        with GetReturns ns None have "try_attempt lib rd bn ee res w =
         (Returned (res\<lparr>success := True,
             filename := Some (relative_path rd (target_name lib rd bn ee resp w)),
             size := length (body_written resp)\<rparr>),
          w\<lparr>calls := calls w + 1,
            files := ((rd, target_name lib rd bn ee resp w), body_written resp) # files w\<rparr>)"
          by (auto simp: try_attempt_def target_name_def body_written_def Let_def)
        with GetReturns ns None sn show ?thesis by (rule ok)
      qed
    qed
  qed
qed

text \<open>
  \<open>keeps_files w w'\<close>: every file of \<open>w\<close> is in \<open>w'\<close> with the content it had.
  \<open>same_environment w w'\<close>: the network, the file system's refusals, the summary and the
  log are those of \<open>w\<close>.
\<close>

definition keeps_files :: "world \<Rightarrow> world \<Rightarrow> bool" where
  "keeps_files w w' \<longleftrightarrow>
     (\<forall>p \<in> fst ` set (files w). map_of (files w') p = map_of (files w) p)"

definition same_environment :: "world \<Rightarrow> world \<Rightarrow> bool" where
  "same_environment w w' \<longleftrightarrow>
     requests_get w' = requests_get w \<and> open_error w' = open_error w \<and>
     summary w' = summary w \<and> log_file w' = log_file w"

lemma retry_loop_done:
  "\<not> attempt < RETRY_ATTEMPTS \<Longrightarrow> retry_loop lib rd bn ee attempt res w = (res, w)"
  by (simp add: retry_loop.simps)

lemma retry_loop_returned:
  "attempt < RETRY_ATTEMPTS \<Longrightarrow> try_attempt lib rd bn ee res w = (Returned r, w1) \<Longrightarrow>
   retry_loop lib rd bn ee attempt res w = (r, w1)"
  by (simp add: retry_loop.simps)

lemma retry_loop_raised:
  "attempt < RETRY_ATTEMPTS \<Longrightarrow> try_attempt lib rd bn ee res w = (Raised e, w1) \<Longrightarrow>
   retry_loop lib rd bn ee attempt res w =
     (case e of
        Timeout \<Rightarrow> retry_loop lib rd bn ee (attempt + 1)
                     (res\<lparr>error := Some (timeout_message attempt)\<rparr>) (backoff attempt w1)
      | HTTPError code why \<Rightarrow> (res\<lparr>error := Some (http_message code why)\<rparr>, w1)
      | RequestException msg \<Rightarrow> retry_loop lib rd bn ee (attempt + 1)
                     (res\<lparr>error := Some msg\<rparr>) (backoff attempt w1)
      | OtherException msg \<Rightarrow> (res\<lparr>error := Some (unexpected_message msg)\<rparr>, w1))"
  by (simp add: retry_loop.simps split: exn.splits)

lemma target_name_fresh:
  "(rd, target_name lib rd bn ee resp w) \<notin> fst ` set (files w)"
proof -
  have "target_name lib rd bn ee resp w \<notin> set (names_in rd (files w))"
    unfolding target_name_def Let_def by (rule dedup_loop_spec(1))
  then show ?thesis by (force simp: names_in_def)
qed

lemma keeps_files_refl: "keeps_files w w"
  by (simp add: keeps_files_def)

lemma keeps_files_trans: "keeps_files a b \<Longrightarrow> keeps_files b c \<Longrightarrow> keeps_files a c"
  unfolding keeps_files_def
  by (metis (no_types, lifting) domIff dom_map_of_conv_image_fst map_of_eq_None_iff)

lemma keeps_files_add: "p \<notin> fst ` set (files w) \<Longrightarrow> files w' = (p, c) # files w \<Longrightarrow> keeps_files w w'"
  by (auto simp: keeps_files_def)

lemma same_environment_refl: "same_environment w w"
  by (simp add: same_environment_def)

lemma same_environment_trans: "same_environment a b \<Longrightarrow> same_environment b c \<Longrightarrow> same_environment a c"
  by (simp add: same_environment_def)

lemma try_attempt_world:
  assumes "try_attempt lib rd bn ee res w = (r, w1)"
  shows "keeps_files w w1 \<and> same_environment w w1 \<and> calls w1 = calls w + 1 \<and> slept w1 = slept w"
proof (cases rule: try_attempt_cases[of w lib rd bn ee res])
  case (get_raises e)
  with assms show ?thesis by (auto simp: keeps_files_def same_environment_def)
next
  case (http_error resp)
  with assms show ?thesis by (auto simp: keeps_files_def same_environment_def)
next
  case (open_fails resp msg)
  with assms show ?thesis by (auto simp: keeps_files_def same_environment_def)
next
  case (stream_fails resp e)
  with assms have w1: "w1 = w\<lparr>calls := calls w + 1,
            files := ((rd, target_name lib rd bn ee resp w), body_written resp) # files w\<rparr>" by simp
  then have "keeps_files w w1"
    by (intro keeps_files_add[OF target_name_fresh]) simp
  with w1 show ?thesis by (simp add: same_environment_def)
next
  case (ok resp)
  with assms have w1: "w1 = w\<lparr>calls := calls w + 1,
            files := ((rd, target_name lib rd bn ee resp w), body_written resp) # files w\<rparr>" by simp
  then have "keeps_files w w1"
    by (intro keeps_files_add[OF target_name_fresh]) simp
  with w1 show ?thesis by (simp add: same_environment_def)
qed

lemma backoff_world:
  "keeps_files w (backoff a w) \<and> same_environment w (backoff a w) \<and> calls (backoff a w) = calls w"
  by (simp add: backoff_def keeps_files_def same_environment_def)

lemma try_attempt_returned:
  assumes "try_attempt lib rd bn ee res w = (Returned r, w1)"
  shows "success r \<and> filename r \<noteq> None \<and> hospital r = hospital res \<and> url r = url res \<and>
         error r = error res"
  by (cases rule: try_attempt_cases[of w lib rd bn ee res]) (use assms in auto)

lemma retry_loop_invariant:
  assumes "retry_loop lib rd bn ee attempt res w = (res', w')"
    and "\<not> success res" and "size res = 0" and "filename res = None"
  shows "keeps_files w w' \<and> same_environment w w' \<and>
         (success res' \<longleftrightarrow> filename res' \<noteq> None) \<and>
         (\<not> success res' \<longrightarrow> size res' = 0) \<and>
         (\<not> success res' \<and> (attempt < RETRY_ATTEMPTS \<or> error res \<noteq> None) \<longrightarrow> error res' \<noteq> None) \<and>
         hospital res' = hospital res \<and> url res' = url res"
  using assms
proof (induction "RETRY_ATTEMPTS - attempt" arbitrary: attempt res w res' w')
  case 0
  then have "\<not> attempt < RETRY_ATTEMPTS" by simp
  with 0 show ?case by (simp add: retry_loop_done keeps_files_refl same_environment_refl)
next
  case (Suc n)
  then have lt: "attempt < RETRY_ATTEMPTS" by simp
  obtain r w1 where t: "try_attempt lib rd bn ee res w = (r, w1)" by fastforce
  note tw = try_attempt_world[OF t]
  have step: "keeps_files w w'' \<and> same_environment w w'' \<and>
         (success r'' \<longleftrightarrow> filename r'' \<noteq> None) \<and>
         (\<not> success r'' \<longrightarrow> size r'' = 0) \<and>
         (\<not> success r'' \<longrightarrow> error r'' \<noteq> None) \<and>
         hospital r'' = hospital res \<and> url r'' = url res"
    if "retry_loop lib rd bn ee (attempt + 1) (res\<lparr>error := Some m\<rparr>) (backoff attempt w1) = (r'', w'')"
    for m r'' w''
  proof -
    have "keeps_files (backoff attempt w1) w'' \<and> same_environment (backoff attempt w1) w'' \<and>
         (success r'' \<longleftrightarrow> filename r'' \<noteq> None) \<and>
         (\<not> success r'' \<longrightarrow> size r'' = 0) \<and>
         (\<not> success r'' \<and> (attempt + 1 < RETRY_ATTEMPTS \<or> error (res\<lparr>error := Some m\<rparr>) \<noteq> None) \<longrightarrow> error r'' \<noteq> None) \<and>
         hospital r'' = hospital (res\<lparr>error := Some m\<rparr>) \<and> url r'' = url (res\<lparr>error := Some m\<rparr>)"
      using Suc.hyps(2) Suc.prems(2,3,4) by (intro Suc.hyps(1)[OF _ that]) auto
    then show ?thesis
      using tw backoff_world[of w1 attempt]
      by (auto intro: keeps_files_trans same_environment_trans)
  qed
  show ?case
  proof (cases r)
    case (Returned r0)
    with t lt Suc.prems(1) have "res' = r0" "w' = w1" by (simp_all add: retry_loop_returned)
    with try_attempt_returned[OF t[unfolded Returned]] tw show ?thesis by auto
  next
    case (Raised e)
    note rr = retry_loop_raised[OF lt t[unfolded Raised]]
    show ?thesis
    proof (cases e)
      case Timeout
      with rr Suc.prems(1)
      have "retry_loop lib rd bn ee (attempt + 1) (res\<lparr>error := Some (timeout_message attempt)\<rparr>)
              (backoff attempt w1) = (res', w')" by simp
      from step[OF this] show ?thesis by simp
    next
      case (HTTPError code why)
      with rr Suc.prems show ?thesis using tw by auto
    next
      case (RequestException msg)
      with rr Suc.prems(1)
      have "retry_loop lib rd bn ee (attempt + 1) (res\<lparr>error := Some msg\<rparr>)
              (backoff attempt w1) = (res', w')" by simp
      from step[OF this] show ?thesis by simp
    next
      case (OtherException msg)
      with rr Suc.prems show ?thesis using tw by auto
    qed
  qed
qed

section \<open>The fetcher: retries and results\<close>

text \<open>
  The exceptions the loop retries: a timeout and any other request exception, which
  is how \<open>requests\<close> reports a failed connection and a body that breaks off. An
  attempt fails at the transport level when \<open>requests.get\<close> raises one of them, or when
  the response has no error status, the file opens and the stream raises one of them.
\<close>

fun retryable :: "exn \<Rightarrow> bool" where
  "retryable Timeout = True"
| "retryable (RequestException msg) = True"
| "retryable (HTTPError code why) = False"
| "retryable (OtherException msg) = False"

definition transport_failure :: "world \<Rightarrow> get_outcome \<Rightarrow> bool" where
  "transport_failure w out =
     (case out of
        GetRaises e \<Rightarrow> retryable e
      | GetReturns resp \<Rightarrow>
          \<not> (400 \<le> status_code resp \<and> status_code resp < 600) \<and>
          (\<forall>p. open_error w p = None) \<and>
          (case stream_error resp of None \<Rightarrow> False | Some e \<Rightarrow> retryable e))"

text \<open>The result dictionary as line 105 creates it.\<close>

definition initial_result :: "pyval \<Rightarrow> pyval \<Rightarrow> result" where
  "initial_result n u =
     \<lparr>hospital = n, url = u, success = False, filename = None, error = None, size = 0\<rparr>"

lemma download_file_Inr:
  assumes "download_file lib w n u ft r = Inr (res, w')"
  obtains rs ns ee where "r = Some rs" "n = Some ns" "get_extension_from_url lib u ft = Inr ee"
    "retry_loop lib (sanitize_filename lib rs) (sanitize_filename lib ns) ee 0 (initial_result n u) w
       = (res, w')"
  using assms
  by (auto simp: download_file_def initial_result_def Let_def split: option.splits sum.splits)

lemma retry_step_transport:
  assumes "attempt < RETRY_ATTEMPTS" and "transport_failure w (requests_get w (calls w))"
  shows "\<exists>m w1. retry_loop lib rd bn ee attempt res w =
            retry_loop lib rd bn ee (attempt + 1) (res\<lparr>error := Some m\<rparr>) (backoff attempt w1) \<and>
          calls w1 = calls w + 1 \<and> slept w1 = slept w \<and>
          requests_get w1 = requests_get w \<and> open_error w1 = open_error w"
proof -
  have raised: ?thesis if t: "try_attempt lib rd bn ee res w = (Raised e, w1)" and r: "retryable e" for e w1
  proof -
    note tw = try_attempt_world[OF t]
    from r retry_loop_raised[OF assms(1) t] tw show ?thesis
      by (cases e) (auto simp: same_environment_def)
  qed
  show ?thesis
  proof (cases rule: try_attempt_cases[of w lib rd bn ee res])
    case (get_raises e)
    with assms(2) raised show ?thesis by (simp add: transport_failure_def)
  next
    case (http_error resp)
    with assms(2) show ?thesis by (simp add: transport_failure_def)
  next
    case (open_fails resp msg)
    with assms(2) show ?thesis by (simp add: transport_failure_def)
  next
    case (stream_fails resp e)
    with assms(2) raised show ?thesis by (auto simp: transport_failure_def)
  next
    case (ok resp)
    with assms(2) show ?thesis by (simp add: transport_failure_def)
  qed
qed

lemma transport_failure_cong:
  "open_error w1 = open_error w \<Longrightarrow> transport_failure w1 out = transport_failure w out"
  by (auto simp: transport_failure_def split: get_outcome.splits)

lemma retry_loop_all_transport:
  assumes tf: "\<forall>k<3. transport_failure w (requests_get w (calls w + k))"
    and run: "retry_loop lib rd bn ee 0 res w = (res', w')"
  shows "calls w' = calls w + 3 \<and> slept w' = slept w @ [Backoff (2 ^ 0), Backoff (2 ^ 1)] \<and>
         success res' = success res \<and> error res' \<noteq> None"
proof -
  have t0: "transport_failure w (requests_get w (calls w))"
    using tf[rule_format, of 0] by simp
  have tf1: "transport_failure w (requests_get w (calls w + 1))"
    using tf[rule_format, of 1] by simp
  have tf2: "transport_failure w (requests_get w (calls w + 2))"
    using tf[rule_format, of 2] by simp
  obtain m1 w1 where s1: "retry_loop lib rd bn ee 0 res w =
        retry_loop lib rd bn ee 1 (res\<lparr>error := Some m1\<rparr>) (backoff 0 w1)"
    and c1: "calls w1 = calls w + 1" "slept w1 = slept w" "requests_get w1 = requests_get w"
       "open_error w1 = open_error w"
    using retry_step_transport[of 0 w lib rd bn ee res, OF _ t0] by (auto simp: RETRY_ATTEMPTS_def)
  define v1 where "v1 = backoff 0 w1"
  have v1: "calls v1 = calls w + 1" "slept v1 = slept w @ [Backoff (2 ^ 0)]"
    "requests_get v1 = requests_get w" "open_error v1 = open_error w"
    using c1 by (simp_all add: v1_def backoff_def RETRY_ATTEMPTS_def)
  have t1: "transport_failure v1 (requests_get v1 (calls v1))"
    using tf1 v1 transport_failure_cong[of v1 w] by simp
  obtain m2 w2 where s2: "retry_loop lib rd bn ee 1 (res\<lparr>error := Some m1\<rparr>) v1 =
        retry_loop lib rd bn ee 2 (res\<lparr>error := Some m2\<rparr>) (backoff 1 w2)"
    and c2: "calls w2 = calls v1 + 1" "slept w2 = slept v1" "requests_get w2 = requests_get v1"
       "open_error w2 = open_error v1"
    using retry_step_transport[of 1 v1 lib rd bn ee "res\<lparr>error := Some m1\<rparr>", OF _ t1]
    by (auto simp: RETRY_ATTEMPTS_def numeral_2_eq_2)
  define v2 where "v2 = backoff 1 w2"
  have v2: "calls v2 = calls w + 2" "slept v2 = slept w @ [Backoff (2 ^ 0), Backoff (2 ^ 1)]"
    "requests_get v2 = requests_get w" "open_error v2 = open_error w"
    using c2 v1 by (simp_all add: v2_def backoff_def RETRY_ATTEMPTS_def)
  have t2: "transport_failure v2 (requests_get v2 (calls v2))"
    using tf2 v2 transport_failure_cong[of v2 w] by simp
  obtain m3 w3 where s3: "retry_loop lib rd bn ee 2 (res\<lparr>error := Some m2\<rparr>) v2 =
        retry_loop lib rd bn ee 3 (res\<lparr>error := Some m3\<rparr>) (backoff 2 w3)"
    and c3: "calls w3 = calls v2 + 1" "slept w3 = slept v2" "requests_get w3 = requests_get v2"
       "open_error w3 = open_error v2"
    using retry_step_transport[of 2 v2 lib rd bn ee "res\<lparr>error := Some m2\<rparr>", OF _ t2]
    by (auto simp: RETRY_ATTEMPTS_def numeral_3_eq_3)
  have b3: "backoff 2 w3 = w3" by (simp add: backoff_def RETRY_ATTEMPTS_def)
  have "retry_loop lib rd bn ee 3 (res\<lparr>error := Some m3\<rparr>) w3 = (res\<lparr>error := Some m3\<rparr>, w3)"
    by (simp add: retry_loop_done RETRY_ATTEMPTS_def)
  with s1 s2 s3 b3 run have "res' = res\<lparr>error := Some m3\<rparr>" "w' = w3"
    by (simp_all add: v1_def v2_def)
  with c3 v2 show ?thesis by simp
qed

lemma retry_loop_http_error:
  assumes g: "requests_get w (calls w) = GetReturns resp"
    and st: "400 \<le> status_code resp \<and> status_code resp < 600"
    and run: "retry_loop lib rd bn ee 0 res w = (res', w')"
  shows "calls w' = calls w + 1 \<and> slept w' = slept w \<and> files w' = files w \<and>
         success res' = success res \<and>
         error res' = Some (str ''HTTP '' @ digits (status_code resp) @ str '': '' @ reason resp)"
proof -
  have t: "try_attempt lib rd bn ee res w =
         (Raised (HTTPError (status_code resp) (reason resp)), w\<lparr>calls := calls w + 1\<rparr>)"
    using g st by (simp add: try_attempt_def)
  have "retry_loop lib rd bn ee 0 res w =
     (res\<lparr>error := Some (http_message (status_code resp) (reason resp))\<rparr>, w\<lparr>calls := calls w + 1\<rparr>)"
    using retry_loop_raised[OF _ t, of 0] by (simp add: RETRY_ATTEMPTS_def)
  with run show ?thesis by (auto simp: http_message_def)
qed

text \<open>
  Sample worlds for the evaluations below: an empty output directory, no refusal
  to open a file, and a network that always times out, answers 404, times out once
  and then delivers, or delivers a body whose writing fails after three bytes.
\<close>

definition sample_world :: "(nat \<Rightarrow> get_outcome) \<Rightarrow> world" where
  "sample_world net =
     \<lparr>files = [], requests_get = net, calls = 0, open_error = (\<lambda>p. None), slept = [],
      summary = None, log_file = None\<rparr>"

definition always_timeout :: "nat \<Rightarrow> get_outcome" where
  "always_timeout n = GetRaises Timeout"

definition not_found_response :: response where
  "not_found_response =
     \<lparr>status_code = 404, reason = str ''Not Found'', content_type = None,
      content_disposition = None, chunks = [], stream_error = None\<rparr>"

definition timeout_then_ok :: "nat \<Rightarrow> get_outcome" where
  "timeout_then_ok n = (if n = 0 then GetRaises Timeout else GetReturns sample_response)"

definition broken_stream :: "nat \<Rightarrow> get_outcome" where
  "broken_stream n =
     GetReturns (sample_response\<lparr>stream_error := Some (OtherException (str ''disk full''))\<rparr>)"

lemma names_in_simps:
  "names_in rd [] = []"
  "names_in rd ((p, c) # fs) = (if fst p = rd then snd p # names_in rd fs else names_in rd fs)"
  by (simp_all add: names_in_def)

lemmas run_defs = download_file_def sanitize_filename_def unicode_sample_def problematic_def
  keep_char_def is_word_def ascii_isalnum_def ascii_isspace_def ascii_lower_def
  get_extension_from_url_def get_extension_from_response_def header_or_empty_def
  sample_response_def not_found_response_def str_def suffix_to_prefix sublist_Cons_right
  sample_world_def retry_loop.simps try_attempt_def backoff_def RETRY_ATTEMPTS_def TIMEOUT_def
  names_in_simps dedup_loop.simps relative_path_def OUTPUT_DIR_def timeout_message_def
  http_message_def unexpected_message_def digits.simps numbered_def Let_def

lemma timeout_run:
  "download_file unicode_sample (sample_world always_timeout)
         (Some (str ''A'')) (Some (str ''/a.csv'')) (Some (str ''CSV'')) (Some (str ''Bay'')) =
       Inr (\<lparr>hospital = Some (str ''A''), url = Some (str ''/a.csv''), success = False,
              filename = None, error = Some (str ''Timeout after 120s (attempt 3/3)''), size = 0\<rparr>,
            \<lparr>files = [], requests_get = always_timeout, calls = 3,
             open_error = (\<lambda>p. None), slept = [Backoff 1, Backoff 2],
             summary = None, log_file = None\<rparr>)"
  by (simp add: run_defs always_timeout_def)

lemma not_found_run:
  "download_file unicode_sample (sample_world (\<lambda>n. GetReturns not_found_response))
         (Some (str ''A'')) (Some (str ''/a.csv'')) (Some (str ''CSV'')) (Some (str ''Bay'')) =
       Inr (\<lparr>hospital = Some (str ''A''), url = Some (str ''/a.csv''), success = False,
              filename = None, error = Some (str ''HTTP 404: Not Found''), size = 0\<rparr>,
            \<lparr>files = [], requests_get = (\<lambda>n. GetReturns not_found_response), calls = 1,
             open_error = (\<lambda>p. None), slept = [],
             summary = None, log_file = None\<rparr>)"
  by (simp add: run_defs)

lemma broken_stream_run:
  "download_file unicode_sample (sample_world broken_stream)
         (Some (str ''A'')) (Some (str ''/a.csv'')) (Some (str ''CSV'')) (Some (str ''Bay'')) =
       Inr (\<lparr>hospital = Some (str ''A''), url = Some (str ''/a.csv''), success = False,
              filename = None, error = Some (str ''Unexpected error: disk full''), size = 0\<rparr>,
            \<lparr>files = [((str ''bay'', str ''a.csv''), [104, 105, 33])],
             requests_get = broken_stream, calls = 1,
             open_error = (\<lambda>p. None), slept = [], summary = None, log_file = None\<rparr>)"
  by (simp add: run_defs broken_stream_def)

text \<open>
  C1. For every row that \<open>download_file\<close> returns a result for: when each of the three
  attempts fails at the transport level, \<open>requests.get\<close> is called exactly three times,
  the function sleeps exactly twice, \<open>2 ^ 0\<close> and \<open>2 ^ 1\<close> seconds, and the result
  is a failure with an error; when the first attempt yields a response with an error
  status (400 to 599), \<open>requests.get\<close> is called exactly once, there is no sleep and no
  file, and the result is a failure whose error is \<open>HTTP\<close>, the status code and the reason.
\<close>

theorem retry_state_machine:
  assumes "download_file lib w n u ft r = Inr (res, w')"
  shows "((\<forall>k<3. transport_failure w (requests_get w (calls w + k))) \<longrightarrow>
            calls w' = calls w + 3 \<and>
            slept w' = slept w @ [Backoff (2 ^ 0), Backoff (2 ^ 1)] \<and>
            \<not> success res \<and> error res \<noteq> None) \<and>
         (\<forall>resp. requests_get w (calls w) = GetReturns resp \<and>
                 400 \<le> status_code resp \<and> status_code resp < 600 \<longrightarrow>
            calls w' = calls w + 1 \<and> slept w' = slept w \<and> files w' = files w \<and>
            \<not> success res \<and>
            error res = Some (str ''HTTP '' @ digits (status_code resp) @ str '': '' @ reason resp))"
proof -
  from assms obtain rs ns ee where
    run: "retry_loop lib (sanitize_filename lib rs) (sanitize_filename lib ns) ee 0 (initial_result n u) w
       = (res, w')"
    by (rule download_file_Inr)
  have i: "\<not> success (initial_result n u)" by (simp add: initial_result_def)
  show ?thesis
    using retry_loop_all_transport[OF _ run] retry_loop_http_error[OF _ _ run] i by blast
qed

text \<open>
  The theorem at work: three timeouts give three calls, the waits 1 and 2 and the
  error of the third attempt; one 404 gives one call, no wait and \<open>HTTP 404: Not Found\<close>.
\<close>

theorem retry_state_machine_witness:
  "list_all (\<lambda>k. transport_failure (sample_world always_timeout)
               (requests_get (sample_world always_timeout)
                  (calls (sample_world always_timeout) + k))) [0, 1, 2] \<and>
   (case download_file unicode_sample (sample_world always_timeout)
           (Some (str ''A'')) (Some (str ''/a.csv'')) (Some (str ''CSV'')) (Some (str ''Bay'')) of
      Inl e \<Rightarrow> False
    | Inr (res, w') \<Rightarrow>
        calls w' = 3 \<and> slept w' = [Backoff 1, Backoff 2] \<and> \<not> success res \<and>
        error res = Some (str ''Timeout after 120s (attempt 3/3)'')) \<and>
   (case download_file unicode_sample (sample_world (\<lambda>n. GetReturns not_found_response))
           (Some (str ''A'')) (Some (str ''/a.csv'')) (Some (str ''CSV'')) (Some (str ''Bay'')) of
      Inl e \<Rightarrow> False
    | Inr (res, w') \<Rightarrow>
        calls w' = 1 \<and> slept w' = [] \<and> files w' = [] \<and> \<not> success res \<and>
        error res = Some (str ''HTTP 404: Not Found''))"
proof -
  let ?w = "sample_world always_timeout"
  have tf: "\<forall>k<3. transport_failure ?w (requests_get ?w (calls ?w + k))"
    by (simp add: transport_failure_def sample_world_def always_timeout_def)
  have c1: "list_all (\<lambda>k. transport_failure ?w (requests_get ?w (calls ?w + k))) [0, 1, 2]"
    by (simp add: transport_failure_def sample_world_def always_timeout_def)
  note a = retry_state_machine[OF timeout_run, THEN conjunct1, THEN mp, OF tf]
  let ?v = "sample_world (\<lambda>n. GetReturns not_found_response)"
  have g: "requests_get ?v (calls ?v) = GetReturns not_found_response \<and>
           400 \<le> status_code not_found_response \<and> status_code not_found_response < 600"
    by (simp add: sample_world_def not_found_response_def)
  note b = retry_state_machine[OF not_found_run, THEN conjunct2, THEN spec, THEN mp, OF g]
  have d: "digits 404 = str ''404''" by (simp add: digits.simps str_def)
  have c2: "(case download_file unicode_sample ?w
           (Some (str ''A'')) (Some (str ''/a.csv'')) (Some (str ''CSV'')) (Some (str ''Bay'')) of
      Inl e \<Rightarrow> False
    | Inr (res, w') \<Rightarrow>
        calls w' = 3 \<and> slept w' = [Backoff 1, Backoff 2] \<and> \<not> success res \<and>
        error res = Some (str ''Timeout after 120s (attempt 3/3)''))"
    using a unfolding timeout_run by (simp add: sample_world_def)
  have c3: "(case download_file unicode_sample ?v
           (Some (str ''A'')) (Some (str ''/a.csv'')) (Some (str ''CSV'')) (Some (str ''Bay'')) of
      Inl e \<Rightarrow> False
    | Inr (res, w') \<Rightarrow>
        calls w' = 1 \<and> slept w' = [] \<and> files w' = [] \<and> \<not> success res \<and>
        error res = Some (str ''HTTP 404: Not Found''))"
    using b d unfolding not_found_run by (simp add: sample_world_def not_found_response_def)
  show ?thesis using c1 c2 c3 by blast
qed


text \<open>
  C2 at a row whose first attempt times out and whose second attempt succeeds: the
  result has \<open>success = True\<close>, the path of the file and its size, and still the error
  of the first attempt, \<open>Timeout after 120s (attempt 1/3)\<close>, which line 162 stored and
  the success path (lines 154 to 156) does not clear.
\<close>

theorem download_file_keeps_stale_error:
  "download_file unicode_sample (sample_world timeout_then_ok)
         (Some (str ''A'')) (Some (str ''/a.csv'')) (Some (str ''CSV'')) (Some (str ''Bay'')) =
       Inr (\<lparr>hospital = Some (str ''A''), url = Some (str ''/a.csv''), success = True,
              filename = Some (str ''public_prices/bay/a.csv''),
              error = Some (str ''Timeout after 120s (attempt 1/3)''), size = 3\<rparr>,
            \<lparr>files = [((str ''bay'', str ''a.csv''), [104, 105, 33])],
             requests_get = timeout_then_ok, calls = 2,
             open_error = (\<lambda>p. None), slept = [Backoff 1], summary = None, log_file = None\<rparr>)"
  by (simp add: run_defs timeout_then_ok_def)


text \<open>
  C10. Every failed result that \<open>download_file\<close> returns has size 0, whatever was
  written to a file before the failure.
\<close>

theorem failed_result_size_zero:
  assumes "download_file lib w n u ft r = Inr (res, w')" and "\<not> success res"
  shows "size res = 0"
proof -
  from assms(1) obtain rs ns ee where
    run: "retry_loop lib (sanitize_filename lib rs) (sanitize_filename lib ns) ee 0 (initial_result n u) w
       = (res, w')"
    by (rule download_file_Inr)
  have "\<not> success (initial_result n u)" "size (initial_result n u) = 0"
    "filename (initial_result n u) = None"
    by (simp_all add: initial_result_def)
  from retry_loop_invariant[OF run this] assms(2) show ?thesis by blast
qed


text \<open>
  The theorem at work: the body is written (three bytes in \<open>bay/a.csv\<close>), the stream
  then raises, and the failed result has size 0.
\<close>

theorem failed_result_size_zero_witness:
  "(case download_file unicode_sample (sample_world broken_stream)
           (Some (str ''A'')) (Some (str ''/a.csv'')) (Some (str ''CSV'')) (Some (str ''Bay'')) of
      Inl e \<Rightarrow> False
    | Inr (res, w') \<Rightarrow>
        \<not> success res \<and> size res = 0 \<and>
        map_of (files w') (str ''bay'', str ''a.csv'') = Some [104, 105, 33])"
proof -
  have f: "\<not> success \<lparr>hospital = Some (str ''A''), url = Some (str ''/a.csv''), success = False,
              filename = None, error = Some (str ''Unexpected error: disk full''), size = 0\<rparr>"
    by simp
  from failed_result_size_zero[OF broken_stream_run f] show ?thesis
    unfolding broken_stream_run by simp
qed

section \<open>The fetcher: destination names\<close>

text \<open>
  The rule of the specification for the destination name, given the names present in
  the region directory: the plain name when it is free, otherwise the name with the
  first number from 1 on (in decimal, after an underscore) that is free.
\<close>

definition first_free_name :: "pystr list \<Rightarrow> pystr \<Rightarrow> pystr \<Rightarrow> pystr \<Rightarrow> bool" where
  "first_free_name existing base ext name \<longleftrightarrow>
     name \<notin> set existing \<and>
     (if base @ ext \<notin> set existing then name = base @ ext
      else (\<exists>k\<ge>1. name = base @ str ''_'' @ digits k @ ext \<and>
              (\<forall>j. 1 \<le> j \<and> j < k \<longrightarrow> base @ str ''_'' @ digits j @ ext \<in> set existing)))"



lemma first_free_name_unique:
  assumes "first_free_name existing b e x" and "first_free_name existing b e y"
  shows "x = y"
proof (cases "b @ e \<in> set existing")
  case False
  with assms show ?thesis by (simp add: first_free_name_def)
next
  case True
  with assms obtain k l where
    k: "1 \<le> k" "x = b @ str ''_'' @ digits k @ e" "x \<notin> set existing"
       "\<forall>j. 1 \<le> j \<and> j < k \<longrightarrow> b @ str ''_'' @ digits j @ e \<in> set existing"
    and l: "1 \<le> l" "y = b @ str ''_'' @ digits l @ e" "y \<notin> set existing"
       "\<forall>j. 1 \<le> j \<and> j < l \<longrightarrow> b @ str ''_'' @ digits j @ e \<in> set existing"
    by (auto simp: first_free_name_def)
  have "\<not> k < l" using k l by blast
  moreover have "\<not> l < k" using k l by blast
  ultimately have "k = l" by simp
  with k l show ?thesis by simp
qed



















section \<open>The orchestrator: properties\<close>













































end
